theory Spec2Isabelle
  imports Complex_Main
begin

section \<open>JavaScript values and the library interface\<close>

text \<open>
  The gateway lives in one module (routes): the token codec \<open>generateSocketToken\<close> /
  \<open>validateSocketToken\<close>, the registry \<open>wsClients\<close>, the \<open>/ws\<close> connection handler and the
  broadcast inside \<open>POST /api/telemetry/ingest\<close>.  The module is dynamically typed at run
  time: what \<open>JSON.parse\<close> returns is any JSON value, so the model works on a datatype of
  JavaScript values.

  A JavaScript number is an IEEE double.  The module only compares numbers and tests them
  for truthiness, and the one sum it forms (\<open>Date.now() + TOKEN_EXPIRY\<close>) is exact on
  integral millisecond counts, so a number is modelled by the real it denotes, the two
  infinities, or NaN.
\<close>

datatype jsnum = NaN | NegInf | Fin real | PosInf

datatype jsval =
    Undefined
  | Null
  | Bool bool
  | Num jsnum
  | Str string
  | Arr "jsval list"
  | Obj "(string \<times> jsval) list"

text \<open>What a \<open>throw\<close> carries; \<open>Error\<close> holds the message.\<close>

datatype exn = SyntaxError | TypeError | Error string

text \<open>
  The functions of Node.js and of the \<open>ws\<close> and \<open>crypto\<close> packages that the module calls are
  not part of the repository; they are parameters.  \<open>None\<close> stands for a thrown exception.
  \<^item> \<open>SESSION_SECRET\<close>: \<open>process.env.SESSION_SECRET\<close>;
  \<^item> \<open>JSON_parse\<close>: \<open>JSON.parse\<close> on a string, \<open>None\<close> for a SyntaxError; an object comes
    back as its key/value list with each key once;
  \<^item> \<open>JSON_stringify\<close>: \<open>JSON.stringify\<close>;
  \<^item> \<open>to_base64\<close>: \<open>Buffer.from(s).toString("base64")\<close>;
  \<^item> \<open>from_base64\<close>: \<open>Buffer.from(v, "base64").toString()\<close>, \<open>None\<close> where \<open>Buffer.from\<close>
    throws (the argument reaches it unchecked from the wire, so it is any value);
  \<^item> \<open>hmac_sha256_hex\<close>: \<open>createHmac("sha256", key).update(data).digest("hex")\<close> on a
    string \<open>data\<close>;
  \<^item> \<open>string_to_number\<close>: the conversion ToNumber on a string;
  \<^item> \<open>array_to_string\<close>: \<open>Array.prototype.toString\<close> on an array of JSON values, \<open>None\<close>
    where converting an element to a string throws a TypeError.
\<close>

record node =
  SESSION_SECRET :: "string option"
  JSON_parse :: "string \<Rightarrow> jsval option"
  JSON_stringify :: "jsval \<Rightarrow> string"
  to_base64 :: "string \<Rightarrow> string"
  from_base64 :: "jsval \<Rightarrow> string option"
  hmac_sha256_hex :: "string \<Rightarrow> string \<Rightarrow> string"
  string_to_number :: "string \<Rightarrow> jsnum"
  array_to_string :: "jsval list \<Rightarrow> string option"

text \<open>
  Property access \<open>v.k\<close>, for the names the module reads (\<open>type\<close>, \<open>token\<close>, \<open>data\<close>,
  \<open>signature\<close>, \<open>exp\<close>, \<open>workspaceId\<close>): none of them is defined on a built-in prototype,
  so only an object's own key gives a value; \<open>null\<close> and \<open>undefined\<close> throw a TypeError.
\<close>

fun get_prop :: "jsval \<Rightarrow> string \<Rightarrow> exn + jsval" where
  "get_prop Undefined k = Inl TypeError"
| "get_prop Null k = Inl TypeError"
| "get_prop (Obj kvs) k = Inr (case map_of kvs k of None \<Rightarrow> Undefined | Some v \<Rightarrow> v)"
| "get_prop v k = Inr Undefined"

text \<open>ToBoolean, as used by \<open>!x\<close> and \<open>a && b\<close>.\<close>

fun truthy :: "jsval \<Rightarrow> bool" where
  "truthy Undefined = False"
| "truthy Null = False"
| "truthy (Bool b) = b"
| "truthy (Num n) = (case n of NaN \<Rightarrow> False | Fin r \<Rightarrow> r \<noteq> 0 | _ \<Rightarrow> True)"
| "truthy (Str s) = (s \<noteq> [])"
| "truthy (Arr xs) = True"
| "truthy (Obj kvs) = True"

text \<open>
  ToNumber, as the comparison \<open>payload.exp < Date.now()\<close> applies it to its left side.
  An object or an array is first turned into a primitive (ToPrimitive, hint number):
  \<open>valueOf\<close> gives no primitive (the inherited one returns the object itself, and an own
  key \<open>valueOf\<close> of a parsed object is not callable and is passed over), so the result
  is that of \<open>toString\<close>.  On a plain object the inherited \<open>toString\<close> answers
  \<open>"[object Object]"\<close>, which is not a number; an own key \<open>toString\<close> hides it with a
  value that is not callable, and the conversion throws a TypeError.
\<close>

fun to_number :: "node \<Rightarrow> jsval \<Rightarrow> exn + jsnum" where
  "to_number L Undefined = Inr NaN"
| "to_number L Null = Inr (Fin 0)"
| "to_number L (Bool b) = Inr (Fin (if b then 1 else 0))"
| "to_number L (Num n) = Inr n"
| "to_number L (Str s) = Inr (string_to_number L s)"
| "to_number L (Arr xs) =
     (case array_to_string L xs of
        None \<Rightarrow> Inl TypeError
      | Some s \<Rightarrow> Inr (string_to_number L s))"
| "to_number L (Obj kvs) =
     (case map_of kvs ''toString'' of None \<Rightarrow> Inr NaN | Some v \<Rightarrow> Inl TypeError)"

text \<open>\<open>v < t\<close> for a value \<open>v\<close> and the finite number \<open>t\<close>; a NaN operand makes it false.\<close>

definition js_less :: "node \<Rightarrow> jsval \<Rightarrow> int \<Rightarrow> exn + bool" where
  "js_less L v t =
     (case to_number L v of
        Inl e \<Rightarrow> Inl e
      | Inr n \<Rightarrow>
          Inr (case n of
                 NaN \<Rightarrow> False
               | NegInf \<Rightarrow> True
               | Fin r \<Rightarrow> r < real_of_int t
               | PosInf \<Rightarrow> False))"

text \<open>
  \<open>try { body } catch (error) { handler }\<close> for a body whose effect is its value.
\<close>

definition try_catch :: "exn + 'a \<Rightarrow> (exn \<Rightarrow> exn + 'a) \<Rightarrow> exn + 'a" where
  "try_catch body handler = (case body of Inl e \<Rightarrow> handler e | Inr v \<Rightarrow> Inr v)"

section \<open>Token codec\<close>

definition SOCKET_SECRET :: "node \<Rightarrow> string" where
  \<comment> \<open>\<open>process.env.SESSION_SECRET || "default-socket-secret"\<close>\<close>
  "SOCKET_SECRET L =
     (case SESSION_SECRET L of
        None \<Rightarrow> ''default-socket-secret''
      | Some s \<Rightarrow> if s = [] then ''default-socket-secret'' else s)"

definition TOKEN_EXPIRY :: int where
  "TOKEN_EXPIRY = 24 * 60 * 60 * 1000"

text \<open>The object \<open>{ workspaceId, exp }\<close> that is signed.\<close>

definition token_payload :: "string \<Rightarrow> int \<Rightarrow> jsval" where
  "token_payload workspaceId expiry =
     Obj [(''workspaceId'', Str workspaceId), (''exp'', Num (Fin (real_of_int expiry)))]"

definition token_envelope :: "string \<Rightarrow> string \<Rightarrow> jsval" where
  "token_envelope data signature = Obj [(''data'', Str data), (''signature'', Str signature)]"

text \<open>\<open>generateSocketToken(workspaceId)\<close>, with \<open>now\<close> the value of \<open>Date.now()\<close>.\<close>

definition generateSocketToken :: "node \<Rightarrow> int \<Rightarrow> string \<Rightarrow> string" where
  "generateSocketToken L now workspaceId =
     (let payload = token_payload workspaceId (now + TOKEN_EXPIRY);
          data = JSON_stringify L payload;
          signature = hmac_sha256_hex L (SOCKET_SECRET L) data
      in to_base64 L (JSON_stringify L (token_envelope data signature)))"

text \<open>The result \<open>{ valid: boolean; workspaceId?: string }\<close>; an absent field reads \<open>undefined\<close>.\<close>

datatype validation = Validation (valid: bool) (validated_workspaceId: jsval)

definition invalid :: validation where
  "invalid = Validation False Undefined"

text \<open>
  The body of the \<open>try\<close> block of \<open>validateSocketToken\<close>, statement by statement.
  Destructuring \<open>const { data, signature } = decoded\<close> reads the two properties;
  \<open>createHmac(...).update(data)\<close> accepts a string (or a byte buffer, which no JSON value
  is) and throws a TypeError on anything else, so the later \<open>JSON.parse(data)\<close> is only
  reached with a string.
\<close>

definition validate_try :: "node \<Rightarrow> int \<Rightarrow> jsval \<Rightarrow> exn + validation" where
  "validate_try L now token =
     (case from_base64 L token of
        None \<Rightarrow> Inl TypeError
      | Some decoded_text \<Rightarrow>
     (case JSON_parse L decoded_text of
        None \<Rightarrow> Inl SyntaxError
      | Some decoded \<Rightarrow>
     (case get_prop decoded ''data'' of
        Inl e \<Rightarrow> Inl e
      | Inr data \<Rightarrow>
     (case get_prop decoded ''signature'' of
        Inl e \<Rightarrow> Inl e
      | Inr signature \<Rightarrow>
     (case data of
        Str d \<Rightarrow>
          (let expectedSignature = hmac_sha256_hex L (SOCKET_SECRET L) d in
           if signature \<noteq> Str expectedSignature then Inr invalid
           else
          (case JSON_parse L d of
             None \<Rightarrow> Inl SyntaxError
           | Some payload \<Rightarrow>
          (case get_prop payload ''exp'' of
             Inl e \<Rightarrow> Inl e
           | Inr expiry \<Rightarrow>
          (case js_less L expiry now of
             Inl e \<Rightarrow> Inl e
           | Inr expired \<Rightarrow>
             if expired then Inr invalid
             else
          (case get_prop payload ''workspaceId'' of
             Inl e \<Rightarrow> Inl e
           | Inr w \<Rightarrow> Inr (Validation True w))))))
      | _ \<Rightarrow> Inl TypeError)))))"

text \<open>\<open>validateSocketToken(token)\<close>: the \<open>catch\<close> turns every exception into \<open>{ valid: false }\<close>.\<close>

definition validateSocketToken :: "node \<Rightarrow> int \<Rightarrow> jsval \<Rightarrow> exn + validation" where
  "validateSocketToken L now token = try_catch (validate_try L now token) (\<lambda>error. Inr invalid)"

section \<open>Transport, registry and server state\<close>

datatype ready_state = CONNECTING | OPEN | CLOSING | CLOSED

text \<open>
  A socket of the \<open>ws\<close> package, as far as the module uses it: its \<open>readyState\<close>; whether
  the stream underneath has failed without \<open>ws\<close> having noticed yet (\<open>readyState\<close> is
  still what it was, and the failure will surface later as an \<open>error\<close> or \<open>close\<close> event);
  and the frames \<open>send\<close> has accepted for writing, oldest first.
\<close>

record WebSocket =
  readyState :: ready_state
  transport_failed :: bool
  sent :: "string list"

text \<open>
  \<open>ws.send(data)\<close> without a callback, in the order of the package's own checks: it
  throws while the socket is connecting; it returns at once, writing nothing, when the
  socket is closing or closed; otherwise it hands the frame to the stream and returns.
  A write error of the stream is not thrown here: it is reported afterwards, by an
  event, so \<open>send\<close> does not consult \<open>transport_failed\<close>.
\<close>

definition ws_send :: "WebSocket \<Rightarrow> string \<Rightarrow> exn + WebSocket" where
  "ws_send ws data =
     (if readyState ws = CONNECTING
      then Inl (Error ''WebSocket is not open: readyState 0 (CONNECTING)'')
      else if readyState ws \<noteq> OPEN then Inr ws
      else Inr (ws\<lparr>sent := sent ws @ [data]\<rparr>))"

text \<open>\<open>ws.close()\<close> starts the closing handshake of a socket that is not yet closing.\<close>

definition ws_close :: "WebSocket \<Rightarrow> WebSocket" where
  "ws_close ws =
     (if readyState ws = OPEN \<or> readyState ws = CONNECTING
      then ws\<lparr>readyState := CLOSING\<rparr> else ws)"

text \<open>
  \<open>interface WebSocketClient { socket; workspaceId }\<close>.  \<open>socket\<close> is the reference to the
  connection's socket (its index in \<open>sockets\<close> below).  The declared type of \<open>workspaceId\<close>
  is string; at run time it is whatever the validated payload held.
\<close>

record WebSocketClient =
  socket :: nat
  workspaceId :: jsval

text \<open>
  \<open>Set<WebSocketClient>\<close> compares objects by identity and iterates in insertion order: a
  list of objects, each paired with its identity.
\<close>

definition Set_add :: "(nat \<times> 'a) list \<Rightarrow> nat \<times> 'a \<Rightarrow> (nat \<times> 'a) list" where
  "Set_add xs x = (if fst x \<in> fst ` set xs then xs else xs @ [x])"

definition Set_delete :: "(nat \<times> 'a) list \<Rightarrow> nat \<Rightarrow> (nat \<times> 'a) list" where
  "Set_delete xs r = filter (\<lambda>x. fst x \<noteq> r) xs"

text \<open>
  The row \<open>storage.createTelemetryLog\<close> returns, as \<open>JSON.stringify\<close> renders it: \<open>id\<close> and
  \<open>workspaceId\<close> are strings (\<open>varchar\<close>, not null); the other columns are kept as a
  key/value list.
\<close>

record TelemetryLog =
  log_id :: string
  log_workspaceId :: string
  log_columns :: "(string \<times> jsval) list"

definition log_value :: "TelemetryLog \<Rightarrow> jsval" where
  "log_value tlog =
     Obj ((''id'', Str (log_id tlog)) # (''workspaceId'', Str (log_workspaceId tlog)) # log_columns tlog)"

text \<open>The two answers of the ingest route.\<close>

datatype response =
    Created jsval  \<comment> \<open>\<open>res.status(201).json(log)\<close>\<close>
  | BadRequest exn  \<comment> \<open>\<open>res.status(400).json({ error: error.message })\<close>\<close>

text \<open>
  The state of the process: the module-level set \<open>wsClients\<close>; the number of
  \<open>WebSocketClient\<close> objects created so far (the next object's identity); every accepted
  socket; for each connection the variable \<open>client\<close> of its handler closure (\<open>None\<close> is
  \<open>null\<close>); the lines written by \<open>console.error\<close>; the HTTP responses of the ingest route.
\<close>

record server =
  wsClients :: "(nat \<times> WebSocketClient) list"
  allocated :: nat
  sockets :: "nat \<rightharpoonup> WebSocket"
  client :: "nat \<rightharpoonup> nat"
  console :: "string list"
  responses :: "response list"

definition initial :: server where
  "initial = \<lparr>wsClients = [], allocated = 0, sockets = Map.empty, client = Map.empty,
     console = [], responses = []\<rparr>"

definition console_error :: "string \<Rightarrow> server \<Rightarrow> server" where
  "console_error line S = S\<lparr>console := console S @ [line]\<rparr>"

section \<open>Wire messages\<close>

definition connected_value :: jsval where
  "connected_value =
     Obj [(''type'', Str ''connected''),
          (''message'', Str ''WebSocket connected. Send subscribe message with valid token.'')]"

definition error_value :: jsval where
  "error_value = Obj [(''type'', Str ''error''), (''message'', Str ''Invalid or expired token'')]"

definition subscribed_value :: "jsval \<Rightarrow> jsval" where
  "subscribed_value w =
     Obj [(''type'', Str ''subscribed''), (''workspaceId'', w),
          (''message'', Str ''Subscribed to workspace logs'')]"

definition new_log_value :: "TelemetryLog \<Rightarrow> jsval" where
  "new_log_value tlog = Obj [(''type'', Str ''new_log''), (''data'', log_value tlog)]"

section \<open>Streaming gateway\<close>

text \<open>
  \<open>wss.on("connection", ws)\<close> for the new socket \<open>c\<close>: \<open>client\<close> starts as \<open>null\<close>, the
  handlers are installed, and the greeting is sent.  A socket handed to this callback is
  open, so the \<open>send\<close> returns normally.
\<close>

definition on_connection :: "node \<Rightarrow> server \<Rightarrow> nat \<Rightarrow> server" where
  "on_connection L S c =
     (let ws = \<lparr>readyState = OPEN, transport_failed = False, sent = []\<rparr>;
          ws' = (case ws_send ws (JSON_stringify L connected_value) of Inl e \<Rightarrow> ws | Inr w \<Rightarrow> w)
      in S\<lparr>sockets := (sockets S)(c \<mapsto> ws'), client := (client S)(c := None)\<rparr>)"

text \<open>
  The \<open>try\<close> block of the message handler of connection \<open>c\<close>, whose socket is \<open>ws\<close>.  The
  result is the exception that left the block, if any, and the state reached.
\<close>

definition message_try ::
  "node \<Rightarrow> int \<Rightarrow> server \<Rightarrow> nat \<Rightarrow> WebSocket \<Rightarrow> string \<Rightarrow> exn option \<times> server" where
  "message_try L now S c ws data =
     (case JSON_parse L data of
        None \<Rightarrow> (Some SyntaxError, S)
      | Some message \<Rightarrow>
     (case get_prop message ''type'' of
        Inl e \<Rightarrow> (Some e, S)
      | Inr ty \<Rightarrow>
        if ty \<noteq> Str ''subscribe'' then (None, S)
        else
     (case get_prop message ''token'' of
        Inl e \<Rightarrow> (Some e, S)
      | Inr token \<Rightarrow>
        if \<not> truthy token then (None, S)
        else
     (case validateSocketToken L now token of
        Inl e \<Rightarrow> (Some e, S)
      | Inr validation \<Rightarrow>
        if \<not> valid validation \<or> \<not> truthy (validated_workspaceId validation)
        then
          (case ws_send ws (JSON_stringify L error_value) of
             Inl e \<Rightarrow> (Some e, S)
           | Inr ws' \<Rightarrow> (None, S\<lparr>sockets := (sockets S)(c \<mapsto> ws_close ws')\<rparr>))
        else
          (let r = allocated S;
               S1 = S\<lparr>client := (client S)(c \<mapsto> r), allocated := Suc r,
                      wsClients := Set_add (wsClients S)
                        (r, \<lparr>socket = c, workspaceId = validated_workspaceId validation\<rparr>)\<rparr>
           in case ws_send ws
                     (JSON_stringify L (subscribed_value (validated_workspaceId validation))) of
                Inl e \<Rightarrow> (Some e, S1)
              | Inr ws' \<Rightarrow> (None, S1\<lparr>sockets := (sockets S1)(c \<mapsto> ws')\<rparr>))))))"

text \<open>\<open>ws.on("message", ...)\<close>: the \<open>catch\<close> logs the exception and nothing else.\<close>

definition on_message :: "node \<Rightarrow> int \<Rightarrow> server \<Rightarrow> nat \<Rightarrow> string \<Rightarrow> server" where
  "on_message L now S c data =
     (case sockets S c of
        None \<Rightarrow> S
      | Some ws \<Rightarrow>
          (case message_try L now S c ws data of
             (None, S') \<Rightarrow> S'
           | (Some e, S') \<Rightarrow> console_error ''WebSocket message error:'' S'))"

text \<open>\<open>ws.on("close", ...)\<close> and \<open>ws.on("error", ...)\<close>.\<close>

definition on_close :: "server \<Rightarrow> nat \<Rightarrow> server" where
  "on_close S c =
     (case client S c of
        None \<Rightarrow> S
      | Some r \<Rightarrow> S\<lparr>wsClients := Set_delete (wsClients S) r\<rparr>)"

definition on_error :: "server \<Rightarrow> nat \<Rightarrow> server" where
  "on_error S c = on_close (console_error ''WebSocket error:'' S) c"

section \<open>Ingestion-to-broadcast bridge\<close>

text \<open>
  \<open>wsClients.forEach((client) => { if (...) client.socket.send(message) })\<close>.  An exception
  thrown by \<open>send\<close> would leave the loop at once, the frames accepted before it staying
  accepted; the guard lets \<open>send\<close> run on open sockets only, where it does not throw.
  Every registered \<open>client.socket\<close> is an accepted socket, so the first branch is only
  there to make the lookup total.
\<close>

fun forEach_send ::
  "(nat \<times> WebSocketClient) list \<Rightarrow> TelemetryLog \<Rightarrow> string \<Rightarrow> (nat \<rightharpoonup> WebSocket)
     \<Rightarrow> exn option \<times> (nat \<rightharpoonup> WebSocket)" where
  "forEach_send [] tlog message socks = (None, socks)"
| "forEach_send (x # xs) tlog message socks =
     (case socks (socket (snd x)) of
        None \<Rightarrow> forEach_send xs tlog message socks
      | Some ws \<Rightarrow>
          if workspaceId (snd x) = Str (log_workspaceId tlog) \<and> readyState ws = OPEN
          then (case ws_send ws message of
                  Inl e \<Rightarrow> (Some e, socks)
                | Inr ws' \<Rightarrow> forEach_send xs tlog message (socks(socket (snd x) \<mapsto> ws')))
          else forEach_send xs tlog message socks)"

text \<open>
  The handler of \<open>POST /api/telemetry/ingest\<close> from the point where
  \<open>insertTelemetryLogSchema.parse\<close> and \<open>await storage.createTelemetryLog(data)\<close> have run:
  \<open>persisted\<close> is the stored row, or the exception one of the two threw.  The message is
  serialised once, before the loop; the loop and \<open>res.status(201).json(log)\<close> sit in the
  same \<open>try\<close>, whose \<open>catch\<close> answers 400.
\<close>

definition ingest :: "node \<Rightarrow> server \<Rightarrow> exn + TelemetryLog \<Rightarrow> server \<times> response" where
  "ingest L S persisted =
     (case persisted of
        Inl e \<Rightarrow> (S, BadRequest e)
      | Inr tlog \<Rightarrow>
          (let message = JSON_stringify L (new_log_value tlog) in
           case forEach_send (wsClients S) tlog message (sockets S) of
             (Some e, socks) \<Rightarrow> (S\<lparr>sockets := socks\<rparr>, BadRequest e)
           | (None, socks) \<Rightarrow> (S\<lparr>sockets := socks\<rparr>, Created (log_value tlog))))"

section \<open>Events and runs\<close>

text \<open>
  What can happen to the process: a socket is accepted; a frame arrives on a socket at
  some time \<open>Date.now()\<close>; a socket is closed; a socket reports an error; the stream
  under a socket fails; an ingest request reaches its handler.
  Each handler runs to completion before the next event.
\<close>

datatype event =
    Connection nat
  | Message nat string int
  | Close nat
  | SocketError nat
  | TransportFailure nat
  | Ingest "exn + TelemetryLog"

text \<open>
  An event the environment cannot produce in the current state leaves it unchanged: a
  second accept of the same socket, a frame on a socket that was never accepted or is
  closed, a close of a closed socket.  \<open>ws\<close> sets \<open>readyState\<close> to \<open>CLOSED\<close> before it emits
  \<open>close\<close>, and to \<open>CLOSING\<close> before it emits \<open>error\<close>.
\<close>

fun step :: "node \<Rightarrow> server \<Rightarrow> event \<Rightarrow> server" where
  "step L S (Connection c) = (if sockets S c = None then on_connection L S c else S)"
| "step L S (Message c data now) =
     (case sockets S c of
        None \<Rightarrow> S
      | Some ws \<Rightarrow>
          if readyState ws = OPEN \<or> readyState ws = CLOSING then on_message L now S c data else S)"
| "step L S (Close c) =
     (case sockets S c of
        None \<Rightarrow> S
      | Some ws \<Rightarrow>
          if readyState ws = CLOSED then S
          else on_close (S\<lparr>sockets := (sockets S)(c \<mapsto> ws\<lparr>readyState := CLOSED\<rparr>)\<rparr>) c)"
| "step L S (SocketError c) =
     (case sockets S c of
        None \<Rightarrow> S
      | Some ws \<Rightarrow>
          if readyState ws = CLOSED then S
          else on_error (S\<lparr>sockets := (sockets S)(c \<mapsto> ws\<lparr>readyState := CLOSING\<rparr>)\<rparr>) c)"
| "step L S (TransportFailure c) =
     (case sockets S c of
        None \<Rightarrow> S
      | Some ws \<Rightarrow> S\<lparr>sockets := (sockets S)(c \<mapsto> ws\<lparr>transport_failed := True\<rparr>)\<rparr>)"
| "step L S (Ingest persisted) =
     (case ingest L S persisted of (S', r) \<Rightarrow> S'\<lparr>responses := responses S' @ [r]\<rparr>)"

definition run :: "node \<Rightarrow> event list \<Rightarrow> server" where
  "run L evs = foldl (step L) initial evs"

section \<open>Notions used in the statements\<close>

text \<open>
  The library round-trips the two documents of the token \<open>generateSocketToken\<close> builds for
  tenant \<open>w\<close> at time \<open>issued\<close>: base64 decoding undoes the encoding of the envelope
  text, and \<open>JSON.parse\<close> undoes \<open>JSON.stringify\<close> on the envelope and on the payload.
\<close>

definition signed_data :: "node \<Rightarrow> int \<Rightarrow> string \<Rightarrow> string" where
  "signed_data L issued w =
     JSON_stringify L (token_payload w (issued + TOKEN_EXPIRY))"

definition signed_envelope :: "node \<Rightarrow> int \<Rightarrow> string \<Rightarrow> jsval" where
  "signed_envelope L issued w =
     token_envelope (signed_data L issued w)
       (hmac_sha256_hex L (SOCKET_SECRET L) (signed_data L issued w))"

definition round_trips :: "node \<Rightarrow> int \<Rightarrow> string \<Rightarrow> bool" where
  "round_trips L issued w =
     (from_base64 L (Str (to_base64 L (JSON_stringify L (signed_envelope L issued w)))) =
        Some (JSON_stringify L (signed_envelope L issued w)) \<and>
      JSON_parse L (JSON_stringify L (signed_envelope L issued w)) =
        Some (signed_envelope L issued w) \<and>
      JSON_parse L (signed_data L issued w) =
        Some (token_payload w (issued + TOKEN_EXPIRY)))"

text \<open>
  A token is malformed when base64 decoding throws, the decoded text is not JSON, the
  envelope has no string \<open>data\<close> or no string \<open>signature\<close>, or \<open>data\<close> is not the JSON text
  of a value other than \<open>null\<close>.
\<close>

definition malformed :: "node \<Rightarrow> jsval \<Rightarrow> bool" where
  "malformed L token =
     (case from_base64 L token of
        None \<Rightarrow> True
      | Some decoded_text \<Rightarrow>
     (case JSON_parse L decoded_text of
        None \<Rightarrow> True
      | Some decoded \<Rightarrow>
     (case get_prop decoded ''data'' of
        Inr (Str d) \<Rightarrow>
          (case get_prop decoded ''signature'' of
             Inr (Str s) \<Rightarrow> JSON_parse L d = None \<or> JSON_parse L d = Some Null
           | _ \<Rightarrow> True)
      | _ \<Rightarrow> True)))"

text \<open>A frame is a subscribe message when it is JSON whose \<open>type\<close> is \<open>"subscribe"\<close>.\<close>

definition subscribe_frame :: "node \<Rightarrow> string \<Rightarrow> bool" where
  "subscribe_frame L data =
     (case JSON_parse L data of
        None \<Rightarrow> False
      | Some message \<Rightarrow> get_prop message ''type'' = Inr (Str ''subscribe''))"

text \<open>
  The tenant for which a frame received at time \<open>now\<close> authenticates: the frame is a
  subscribe message with a truthy token that \<open>validateSocketToken\<close> accepts with a truthy
  \<open>workspaceId\<close>.
\<close>

definition authenticates :: "node \<Rightarrow> int \<Rightarrow> string \<Rightarrow> jsval option" where
  "authenticates L now data =
     (case JSON_parse L data of
        None \<Rightarrow> None
      | Some message \<Rightarrow>
          if get_prop message ''type'' = Inr (Str ''subscribe'') then
            (case get_prop message ''token'' of
               Inl e \<Rightarrow> None
             | Inr token \<Rightarrow>
                 if truthy token then
                   (case validateSocketToken L now token of
                      Inl e \<Rightarrow> None
                    | Inr v \<Rightarrow>
                        if valid v \<and> truthy (validated_workspaceId v)
                        then Some (validated_workspaceId v) else None)
                 else None)
          else None)"

text \<open>
  A frame received at time \<open>now\<close> is rejected: it is a subscribe message with a truthy
  token for which \<open>validateSocketToken\<close> answers invalid, or valid without a truthy
  \<open>workspaceId\<close>.
\<close>

definition rejects :: "node \<Rightarrow> int \<Rightarrow> string \<Rightarrow> bool" where
  "rejects L now data =
     (case JSON_parse L data of
        None \<Rightarrow> False
      | Some message \<Rightarrow>
          get_prop message ''type'' = Inr (Str ''subscribe'') \<and>
          (case get_prop message ''token'' of
             Inl e \<Rightarrow> False
           | Inr token \<Rightarrow>
               truthy token \<and>
               (case validateSocketToken L now token of
                  Inl e \<Rightarrow> False
                | Inr v \<Rightarrow> \<not> valid v \<or> \<not> truthy (validated_workspaceId v))))"

text \<open>
  The number of registry entries of connection \<open>c\<close> that are scoped to tenant \<open>w\<close>; an
  entry of the registry that the fan-out for tenant \<open>w\<close> addresses (scoped to \<open>w\<close>, socket
  open).
\<close>

definition deliveries :: "(nat \<times> WebSocketClient) list \<Rightarrow> string \<Rightarrow> nat \<Rightarrow> nat" where
  "deliveries xs w c =
     length (filter (\<lambda>x. socket (snd x) = c \<and> workspaceId (snd x) = Str w) xs)"

definition addressed ::
  "(nat \<times> WebSocketClient) list \<Rightarrow> string \<Rightarrow> (nat \<rightharpoonup> WebSocket)
     \<Rightarrow> nat \<times> WebSocketClient \<Rightarrow> bool" where
  "addressed xs w socks x =
     (x \<in> set xs \<and> workspaceId (snd x) = Str w \<and>
      (case socks (socket (snd x)) of None \<Rightarrow> False | Some ws \<Rightarrow> readyState ws = OPEN))"

text \<open>
  The sockets after the fan-out of \<open>message\<close> for tenant \<open>w\<close>: every open socket has been
  sent one copy per registry entry it holds for \<open>w\<close>, and nothing else has changed.
\<close>

definition fan_out ::
  "(nat \<times> WebSocketClient) list \<Rightarrow> string \<Rightarrow> string \<Rightarrow> (nat \<rightharpoonup> WebSocket)
     \<Rightarrow> (nat \<rightharpoonup> WebSocket)" where
  "fan_out xs w message socks =
     (\<lambda>c. case socks c of
             None \<Rightarrow> None
           | Some ws \<Rightarrow>
               Some (if readyState ws = OPEN
                     then ws\<lparr>sent := sent ws @ replicate (deliveries xs w c) message\<rparr>
                     else ws))"

text \<open>
  Every identity in the registry belongs to an object that has been created.
\<close>

definition registry_ok :: "server \<Rightarrow> bool" where
  "registry_ok S = (\<forall>x\<in>set (wsClients S). fst x < allocated S)"

text \<open>
  The handshake that an event completes when it is handled in state \<open>S\<close>: a frame on an
  accepted socket that is not closed, which authenticates for a tenant; and the
  handshakes completed while a list of events is handled from \<open>S\<close> on.
\<close>

definition accepts :: "node \<Rightarrow> server \<Rightarrow> event \<Rightarrow> (nat \<times> jsval) option" where
  "accepts L S ev =
     (case ev of
        Message c data now \<Rightarrow>
          (case sockets S c of
             None \<Rightarrow> None
           | Some ws \<Rightarrow>
               if readyState ws = OPEN \<or> readyState ws = CLOSING
               then map_option (Pair c) (authenticates L now data)
               else None)
      | _ \<Rightarrow> None)"

fun accepted :: "node \<Rightarrow> server \<Rightarrow> event list \<Rightarrow> (nat \<times> jsval) list" where
  "accepted L S [] = []"
| "accepted L S (ev # evs) =
     (case accepts L S ev of None \<Rightarrow> [] | Some p \<Rightarrow> [p]) @ accepted L (step L S ev) evs"

text \<open>An event other than a subscribe message on connection \<open>c\<close>.\<close>

definition silent :: "node \<Rightarrow> nat \<Rightarrow> event \<Rightarrow> bool" where
  "silent L c ev =
     (case ev of Message c' data now \<Rightarrow> c' = c \<longrightarrow> \<not> subscribe_frame L data | _ \<Rightarrow> True)"

section \<open>A sample library\<close>

text \<open>
  A small instance of the library interface, on which the definitions can be evaluated.
  \<open>sample_stringify\<close> prints JSON text (non-negative integers, strings with \<open>"\<close> and \<open>\\<close>
  escaped); \<open>sample_parse\<close> reads back the documents of the sample runs and rejects every
  other text; base64 is replaced by a reversible prefix and the HMAC by a concatenation of
  key and data.
\<close>

fun digits :: "nat \<Rightarrow> string" where
  "digits n =
     (if n < 10 then [char_of (48 + n)] else digits (n div 10) @ [char_of (48 + n mod 10)])"

definition quote :: "string \<Rightarrow> string" where
  "quote s =
     [CHR 0x22] @
     concat (map (\<lambda>c. if c = CHR 0x22 \<or> c = CHR 0x5C then [CHR 0x5C, c] else [c]) s) @
     [CHR 0x22]"

fun commas :: "string list \<Rightarrow> string" where
  "commas [] = []"
| "commas [x] = x"
| "commas (x # y # zs) = x @ '','' @ commas (y # zs)"

fun sample_stringify :: "jsval \<Rightarrow> string" where
  "sample_stringify (Bool b) = (if b then ''true'' else ''false'')"
| "sample_stringify (Num (Fin r)) = digits (nat \<lfloor>r\<rfloor>)"
| "sample_stringify (Str s) = quote s"
| "sample_stringify (Arr xs) = ''['' @ commas (map sample_stringify xs) @ '']''"
| "sample_stringify (Obj kvs) =
     ''{'' @ commas (map (\<lambda>kv. quote (fst kv) @ '':'' @ sample_stringify (snd kv)) kvs) @ ''}''"
| "sample_stringify v = ''null''"

definition sample_hmac :: "string \<Rightarrow> string \<Rightarrow> string" where
  "sample_hmac key data = key @ ''/'' @ data"

definition sample_to_base64 :: "string \<Rightarrow> string" where
  "sample_to_base64 s = ''b64:'' @ s"

fun sample_from_base64 :: "jsval \<Rightarrow> string option" where
  "sample_from_base64 (Str t) = Some (if take 4 t = ''b64:'' then drop 4 t else [])"
| "sample_from_base64 v = None"

text \<open>The token that carries \<open>payload\<close>, signed with the sample secret.\<close>

definition sample_envelope :: "jsval \<Rightarrow> jsval" where
  "sample_envelope payload =
     token_envelope (sample_stringify payload)
       (sample_hmac ''test-secret'' (sample_stringify payload))"

definition sample_token :: "jsval \<Rightarrow> string" where
  "sample_token payload = sample_to_base64 (sample_stringify (sample_envelope payload))"

text \<open>What the browser sends on open: \<open>{ type: "subscribe", token }\<close>.\<close>

definition subscribe_value :: "string \<Rightarrow> jsval" where
  "subscribe_value token = Obj [(''type'', Str ''subscribe''), (''token'', Str token)]"

definition sample_log :: TelemetryLog where
  "sample_log =
     \<lparr>log_id = ''r1'', log_workspaceId = ''W1'', log_columns = [(''model'', Str ''gpt-4'')]\<rparr>"

text \<open>
  Payloads for tenants \<open>W1\<close> and \<open>W2\<close> that expire at 86401000 (issued at 1000), and one
  without \<open>exp\<close>.
\<close>

definition sample_payloads :: "jsval list" where
  "sample_payloads =
     [token_payload ''W1'' 86401000, token_payload ''W2'' 86401000,
      Obj [(''workspaceId'', Str ''W1'')]]"

definition sample_documents :: "jsval list" where
  "sample_documents =
     sample_payloads
     @ map sample_envelope sample_payloads
     @ map (\<lambda>p. subscribe_value (sample_token p)) sample_payloads
     @ [subscribe_value ''bogus'', subscribe_value [], Obj [(''type'', Str ''ping'')], Null,
        connected_value, error_value, subscribed_value (Str ''W1''), new_log_value sample_log]"

definition sample_parse :: "string \<Rightarrow> jsval option" where
  "sample_parse s = find (\<lambda>v. sample_stringify v = s) sample_documents"

definition sample :: node where
  "sample =
     \<lparr>SESSION_SECRET = Some ''test-secret'', JSON_parse = sample_parse,
      JSON_stringify = sample_stringify, to_base64 = sample_to_base64,
      from_base64 = sample_from_base64, hmac_sha256_hex = sample_hmac,
      string_to_number = (\<lambda>s. NaN), array_to_string = (\<lambda>xs. Some [])\<rparr>"

text \<open>The subscribe frame with a token for tenant \<open>w\<close>.\<close>

definition sample_subscribe :: "string \<Rightarrow> string" where
  "sample_subscribe w = sample_stringify (subscribe_value (sample_token (token_payload w 86401000)))"

text \<open>
  Sample runs.  In \<open>sample_session\<close> three browsers connect and subscribe: connections 0
  and 1 for tenant \<open>W1\<close>, connection 2 for tenant \<open>W2\<close>; \<open>sample_state\<close> is the state it
  leads to.  In \<open>faulty_session\<close> the stream under connection 0 then fails, unnoticed.
  In \<open>bystander_session\<close> a fourth browser connects, sends a frame that is not JSON and
  never subscribes, and a record of tenant \<open>W1\<close> is ingested.  In \<open>resubscribe_session\<close>
  one browser connects and subscribes for \<open>W1\<close>.
\<close>

definition sample_socket :: "string list \<Rightarrow> WebSocket" where
  "sample_socket frames = \<lparr>readyState = OPEN, transport_failed = False, sent = frames\<rparr>"

definition sample_session :: "event list" where
  "sample_session =
     [Connection 0, Connection 1, Connection 2,
      Message 0 (sample_subscribe ''W1'') 2000,
      Message 1 (sample_subscribe ''W1'') 2000,
      Message 2 (sample_subscribe ''W2'') 2000]"

definition sample_state :: server where
  "sample_state =
     \<lparr>wsClients =
        [(0, \<lparr>socket = 0, workspaceId = Str ''W1''\<rparr>),
         (1, \<lparr>socket = 1, workspaceId = Str ''W1''\<rparr>),
         (2, \<lparr>socket = 2, workspaceId = Str ''W2''\<rparr>)],
      allocated = 3,
      sockets =
        [0 \<mapsto> sample_socket [sample_stringify connected_value,
                               sample_stringify (subscribed_value (Str ''W1''))],
         1 \<mapsto> sample_socket [sample_stringify connected_value,
                               sample_stringify (subscribed_value (Str ''W1''))],
         2 \<mapsto> sample_socket [sample_stringify connected_value,
                               sample_stringify (subscribed_value (Str ''W2''))]],
      client = [0 \<mapsto> 0, 1 \<mapsto> 1, 2 \<mapsto> 2],
      console = [],
      responses = []\<rparr>"


definition bystander_session :: "event list" where
  "bystander_session =
     sample_session @ [Connection 3, Message 3 ''junk'' 2500, Ingest (Inr sample_log)]"

definition resubscribe_session :: "event list" where
  "resubscribe_session = [Connection 0, Message 0 (sample_subscribe ''W1'') 2000]"

section \<open>The sample library round-trips its documents\<close>

lemmas sample_defs =
  sample_parse_def sample_documents_def sample_payloads_def token_payload_def token_envelope_def
  subscribe_value_def sample_token_def sample_envelope_def sample_to_base64_def sample_hmac_def
  quote_def connected_value_def error_value_def subscribed_value_def new_log_value_def
  log_value_def sample_log_def

lemma find_distinct:
  "distinct (map f xs) \<Longrightarrow> v \<in> set xs \<Longrightarrow> find (\<lambda>x. f x = f v) xs = Some v"
  by (induction xs) auto

lemma sample_texts_distinct: "distinct (map sample_stringify sample_documents)"
  by (simp add: sample_defs)

lemma sample_parse_document:
  "v \<in> set sample_documents \<Longrightarrow> sample_parse (sample_stringify v) = Some v"
  unfolding sample_parse_def by (rule find_distinct [OF sample_texts_distinct])

lemma sample_parse_junk: "sample_parse ''junk'' = None"
  by (simp add: sample_defs)

lemma sample_parse_empty: "sample_parse [] = None"
  by (simp add: sample_defs)

declare sample_stringify.simps [simp del]

lemma sample_envelope_props:
  "get_prop (sample_envelope p) ''data'' = Inr (Str (sample_stringify p))"
  "get_prop (sample_envelope p) ''signature'' =
     Inr (Str (sample_hmac ''test-secret'' (sample_stringify p)))"
  by (simp_all add: sample_envelope_def token_envelope_def)

lemma sample_from_to_base64: "sample_from_base64 (Str (sample_to_base64 s)) = Some s"
  by (simp add: sample_to_base64_def)

lemma sample_from_base64_bogus: "sample_from_base64 (Str ''bogus'') = Some []"
  by simp

declare sample_from_base64.simps [simp del]

lemma sample_round_trips: "round_trips sample 1000 ''W1''"
  by (simp add: round_trips_def sample_def signed_envelope_def signed_data_def SOCKET_SECRET_def
      TOKEN_EXPIRY_def sample_from_to_base64 sample_parse_document sample_documents_def
      sample_payloads_def sample_envelope_def)

section \<open>Token codec: lemmas\<close>

lemma validate_returns: "\<exists>v. validateSocketToken L now token = Inr v"
  by (cases "validate_try L now token") (simp_all add: validateSocketToken_def try_catch_def)

lemma validate_malformed:
  assumes "malformed L token"
  shows "validateSocketToken L now token = Inr invalid"
  using assms
  by (auto simp: malformed_def validateSocketToken_def try_catch_def validate_try_def Let_def
      split: option.splits sum.splits jsval.splits if_splits)

lemma validate_valid_iff:
  "validateSocketToken L now token = Inr (Validation True w) \<longleftrightarrow>
     (\<exists>decoded_text decoded d payload expiry.
        from_base64 L token = Some decoded_text \<and>
        JSON_parse L decoded_text = Some decoded \<and>
        get_prop decoded ''data'' = Inr (Str d) \<and>
        get_prop decoded ''signature'' = Inr (Str (hmac_sha256_hex L (SOCKET_SECRET L) d)) \<and>
        JSON_parse L d = Some payload \<and>
        get_prop payload ''exp'' = Inr expiry \<and>
        js_less L expiry now = Inr False \<and>
        get_prop payload ''workspaceId'' = Inr w)"
  by (auto simp: validateSocketToken_def try_catch_def validate_try_def Let_def invalid_def
      split: option.splits sum.splits jsval.splits if_splits)

lemma validate_generated:
  assumes "round_trips L issued w"
  shows "validateSocketToken L now (Str (generateSocketToken L issued w)) =
           Inr (if now \<le> issued + TOKEN_EXPIRY then Validation True (Str w) else invalid)"
  using assms
  by (simp add: round_trips_def signed_envelope_def signed_data_def generateSocketToken_def
      validateSocketToken_def try_catch_def validate_try_def Let_def token_envelope_def
      token_payload_def js_less_def not_less)

lemma sample_token_accepted:
  assumes "p \<in> set sample_payloads"
  shows "validateSocketToken sample now (Str (sample_token p)) =
     (case get_prop p ''exp'' of
        Inl e \<Rightarrow> Inr invalid
      | Inr expiry \<Rightarrow>
          (case js_less sample expiry now of
             Inl e \<Rightarrow> Inr invalid
           | Inr expired \<Rightarrow>
               if expired then Inr invalid
               else (case get_prop p ''workspaceId'' of
                       Inl e \<Rightarrow> Inr invalid
                     | Inr w \<Rightarrow> Inr (Validation True w))))"
proof -
  have 1: "sample_parse (sample_stringify (sample_envelope p)) = Some (sample_envelope p)"
    using assms by (intro sample_parse_document) (auto simp: sample_documents_def)
  have 2: "sample_parse (sample_stringify p) = Some p"
    using assms by (intro sample_parse_document) (auto simp: sample_documents_def)
  show ?thesis
    by (simp add: validateSocketToken_def try_catch_def validate_try_def sample_def
        sample_token_def sample_from_to_base64 1 2 sample_envelope_props
        SOCKET_SECRET_def split: sum.splits)
qed

section \<open>Message handler: lemmas\<close>

lemma authenticates_subscribe: "authenticates L now data = Some w \<Longrightarrow> subscribe_frame L data"
  by (auto simp: authenticates_def subscribe_frame_def split: option.splits if_splits)

lemma message_try_authenticates:
  assumes "authenticates L now data = Some w"
  shows "message_try L now S c ws data =
     (let S1 = S\<lparr>client := (client S)(c \<mapsto> allocated S), allocated := Suc (allocated S),
                  wsClients := Set_add (wsClients S) (allocated S, \<lparr>socket = c, workspaceId = w\<rparr>)\<rparr>
      in case ws_send ws (JSON_stringify L (subscribed_value w)) of
           Inl e \<Rightarrow> (Some e, S1)
         | Inr ws' \<Rightarrow> (None, S1\<lparr>sockets := (sockets S1)(c \<mapsto> ws')\<rparr>))"
  using assms
  by (auto simp: message_try_def authenticates_def Let_def split: option.splits sum.splits if_splits)

lemma message_try_rejects:
  assumes "rejects L now data"
  shows "message_try L now S c ws data =
     (case ws_send ws (JSON_stringify L error_value) of
        Inl e \<Rightarrow> (Some e, S)
      | Inr ws' \<Rightarrow> (None, S\<lparr>sockets := (sockets S)(c \<mapsto> ws_close ws')\<rparr>))"
  using assms
  by (auto simp: message_try_def rejects_def Let_def split: option.splits sum.splits if_splits)

lemma message_try_other:
  assumes "authenticates L now data = None" "\<not> rejects L now data"
  shows "snd (message_try L now S c ws data) = S"
  using assms
  by (auto simp: message_try_def authenticates_def rejects_def Let_def split: option.splits sum.splits if_splits)

section \<open>Fan-out: lemmas\<close>

lemma ws_send_open:
  "readyState ws = OPEN \<Longrightarrow> ws_send ws m = Inr (ws\<lparr>sent := sent ws @ [m]\<rparr>)"
  by (simp add: ws_send_def)

lemma fan_out_Nil: "fan_out [] w message socks = socks"
  by (rule ext) (simp add: fan_out_def deliveries_def split: option.splits)

lemma fan_out_skip:
  assumes "\<not> addressed (x # xs) w socks x"
  shows "fan_out (x # xs) w message socks = fan_out xs w message socks"
proof (rule ext)
  fix c
  show "fan_out (x # xs) w message socks c = fan_out xs w message socks c"
    using assms
    by (auto simp: fan_out_def deliveries_def addressed_def split: option.splits)
qed

lemma fan_out_send:
  assumes "socks (socket (snd x)) = Some ws" "readyState ws = OPEN" "workspaceId (snd x) = Str w"
  shows "fan_out (x # xs) w message socks =
         fan_out xs w message (socks(socket (snd x) \<mapsto> ws\<lparr>sent := sent ws @ [message]\<rparr>))"
proof (rule ext)
  fix c
  show "fan_out (x # xs) w message socks c =
        fan_out xs w message (socks(socket (snd x) \<mapsto> ws\<lparr>sent := sent ws @ [message]\<rparr>)) c"
    using assms
    by (auto simp: fan_out_def deliveries_def replicate_append_same split: option.splits)
qed

lemma forEach_send_complete:
  "forEach_send xs tlog message socks = (None, fan_out xs (log_workspaceId tlog) message socks)"
proof (induction xs arbitrary: socks)
  case Nil
  show ?case by (simp add: fan_out_Nil)
next
  case (Cons x xs)
  let ?w = "log_workspaceId tlog"
  show ?case
  proof (cases "addressed (x # xs) ?w socks x")
    case False
    then have "forEach_send (x # xs) tlog message socks = forEach_send xs tlog message socks"
      by (auto simp: addressed_def split: option.splits)
    with False Cons.IH [of socks] show ?thesis
      by (simp add: fan_out_skip)
  next
    case True
    then obtain ws where ws: "socks (socket (snd x)) = Some ws" "readyState ws = OPEN"
      and w: "workspaceId (snd x) = Str ?w"
      by (auto simp: addressed_def split: option.splits)
    let ?socks = "socks(socket (snd x) \<mapsto> ws\<lparr>sent := sent ws @ [message]\<rparr>)"
    have step: "forEach_send (x # xs) tlog message socks = forEach_send xs tlog message ?socks"
      using ws w by (simp add: ws_send_open)
    have ih: "forEach_send xs tlog message ?socks = (None, fan_out xs ?w message ?socks)"
      by (rule Cons.IH)
    have "fan_out (x # xs) ?w message socks = fan_out xs ?w message ?socks"
      using ws w by (rule fan_out_send)
    with step ih show ?thesis
      by (simp only:)
  qed
qed

lemma forEach_send_frames:
  "\<exists>k \<le> deliveries xs (log_workspaceId tlog) c.
     snd (forEach_send xs tlog message socks) c =
       map_option (\<lambda>ws. ws\<lparr>sent := sent ws @ replicate k message\<rparr>) (socks c)"
proof (induction xs arbitrary: socks)
  case Nil
  show ?case by (rule exI [of _ 0]) (simp add: option.map_ident)
next
  case (Cons x xs)
  let ?w = "log_workspaceId tlog"
  have keep: "\<exists>k \<le> deliveries (x # xs) ?w c.
      snd (forEach_send xs tlog message socks) c =
        map_option (\<lambda>ws. ws\<lparr>sent := sent ws @ replicate k message\<rparr>) (socks c)"
    using Cons.IH [of socks] by (auto simp: deliveries_def intro: le_SucI)
  have nothing: "\<exists>k \<le> deliveries (x # xs) ?w c.
      socks c = map_option (\<lambda>ws. ws\<lparr>sent := sent ws @ replicate k message\<rparr>) (socks c)"
    by (rule exI [of _ 0]) (simp add: option.map_ident)
  show ?case
  proof (cases "socks (socket (snd x))")
    case None
    with keep show ?thesis by simp
  next
    case (Some ws)
    show ?thesis
    proof (cases "workspaceId (snd x) = Str ?w \<and> readyState ws = OPEN")
      case False
      with Some keep show ?thesis by auto
    next
      case True
      show ?thesis
      proof (cases "ws_send ws message")
        case (Inl e)
        with Some True
        have stop: "forEach_send (x # xs) tlog message socks = (Some e, socks)"
          by simp
        show ?thesis unfolding stop snd_conv by (fact nothing)
      next
        case (Inr ws')
        with True have ws': "ws' = ws\<lparr>sent := sent ws @ [message]\<rparr>"
          by (auto simp: ws_send_def split: option.splits if_splits)
        let ?socks = "socks(socket (snd x) \<mapsto> ws')"
        from Cons.IH [of ?socks] obtain k where k: "k \<le> deliveries xs ?w c"
          and eq: "snd (forEach_send xs tlog message ?socks) c =
                   map_option (\<lambda>ws. ws\<lparr>sent := sent ws @ replicate k message\<rparr>) (?socks c)"
          by blast
        have run: "forEach_send (x # xs) tlog message socks = forEach_send xs tlog message ?socks"
          using Some True Inr by simp
        show ?thesis
        proof (cases "c = socket (snd x)")
          case False
          with k eq run show ?thesis
            by (auto simp: deliveries_def intro!: exI [of _ k])
        next
          case c: True
          have "Suc k \<le> deliveries (x # xs) ?w c"
            using k c True by (simp add: deliveries_def)
          moreover have "snd (forEach_send (x # xs) tlog message socks) c =
              map_option (\<lambda>ws. ws\<lparr>sent := sent ws @ replicate (Suc k) message\<rparr>) (socks c)"
            using eq run c Some ws' by (simp add: replicate_append_same)
          ultimately show ?thesis by blast
        qed
      qed
    qed
  qed
qed

lemma forEach_send_untouched:
  assumes "\<forall>x\<in>set xs. socket (snd x) \<noteq> c"
  shows "snd (forEach_send xs tlog message socks) c = socks c"
proof -
  from assms have "deliveries xs (log_workspaceId tlog) c = 0"
    by (auto simp: deliveries_def filter_empty_conv)
  with forEach_send_frames [of xs tlog c message socks] show ?thesis
    by (auto simp: option.map_ident)
qed

section \<open>Handlers and registry: lemmas\<close>

lemma console_error_fields [simp]:
  "wsClients (console_error l S) = wsClients S"
  "allocated (console_error l S) = allocated S"
  "sockets (console_error l S) = sockets S"
  "client (console_error l S) = client S"
  "responses (console_error l S) = responses S"
  by (simp_all add: console_error_def)

lemma on_message_authenticates:
  assumes "sockets S c = Some ws" "authenticates L now data = Some w"
  shows "on_message L now S c data =
     (let S1 = S\<lparr>client := (client S)(c \<mapsto> allocated S), allocated := Suc (allocated S),
                  wsClients := Set_add (wsClients S) (allocated S, \<lparr>socket = c, workspaceId = w\<rparr>)\<rparr>
      in case ws_send ws (JSON_stringify L (subscribed_value w)) of
           Inl e \<Rightarrow> console_error ''WebSocket message error:'' S1
         | Inr ws' \<Rightarrow> S1\<lparr>sockets := (sockets S1)(c \<mapsto> ws')\<rparr>)"
  using assms
  by (simp add: on_message_def message_try_authenticates Let_def split: sum.splits)

lemma on_message_rejects:
  assumes "sockets S c = Some ws" "rejects L now data"
  shows "on_message L now S c data =
     (case ws_send ws (JSON_stringify L error_value) of
        Inl e \<Rightarrow> console_error ''WebSocket message error:'' S
      | Inr ws' \<Rightarrow> S\<lparr>sockets := (sockets S)(c \<mapsto> ws_close ws')\<rparr>)"
  using assms
  by (simp add: on_message_def message_try_rejects split: sum.splits)

lemma on_message_other:
  assumes "authenticates L now data = None" "\<not> rejects L now data"
  shows "on_message L now S c data = S \<or>
         on_message L now S c data = console_error ''WebSocket message error:'' S"
proof (cases "sockets S c")
  case None
  then show ?thesis by (simp add: on_message_def)
next
  case (Some ws)
  obtain e S' where m: "message_try L now S c ws data = (e, S')"
    by (cases "message_try L now S c ws data")
  with message_try_other [OF assms, of S c ws] have "S' = S" by simp
  with Some m show ?thesis
    by (cases e) (simp_all add: on_message_def)
qed

lemma not_subscribe_other:
  assumes "\<not> subscribe_frame L data"
  shows "authenticates L now data = None" "\<not> rejects L now data"
  using assms
  by (auto simp: authenticates_def rejects_def subscribe_frame_def split: option.splits)

lemma authenticates_truthy: "authenticates L now data = Some w \<Longrightarrow> truthy w"
  by (auto simp: authenticates_def split: option.splits sum.splits if_splits)

lemma on_message_registry:
  assumes "sockets S c = Some ws"
  shows "wsClients (on_message L now S c data) =
           (case authenticates L now data of
              None \<Rightarrow> wsClients S
            | Some w \<Rightarrow> Set_add (wsClients S) (allocated S, \<lparr>socket = c, workspaceId = w\<rparr>))"
    and "allocated (on_message L now S c data) =
           (case authenticates L now data of None \<Rightarrow> allocated S | Some w \<Rightarrow> Suc (allocated S))"
    and "client (on_message L now S c data) =
           (case authenticates L now data of
              None \<Rightarrow> client S
            | Some w \<Rightarrow> (client S)(c \<mapsto> allocated S))"
proof -
  consider (auth) w where "authenticates L now data = Some w"
    | (rej) "authenticates L now data = None" "rejects L now data"
    | (other) "authenticates L now data = None" "\<not> rejects L now data"
    by (cases "authenticates L now data") auto
  then have "wsClients (on_message L now S c data) =
           (case authenticates L now data of
              None \<Rightarrow> wsClients S
            | Some w \<Rightarrow> Set_add (wsClients S) (allocated S, \<lparr>socket = c, workspaceId = w\<rparr>)) \<and>
        allocated (on_message L now S c data) =
           (case authenticates L now data of None \<Rightarrow> allocated S | Some w \<Rightarrow> Suc (allocated S)) \<and>
        client (on_message L now S c data) =
           (case authenticates L now data of
              None \<Rightarrow> client S
            | Some w \<Rightarrow> (client S)(c \<mapsto> allocated S))"
  proof cases
    case auth
    then show ?thesis
      by (simp add: on_message_authenticates [OF assms auth] Let_def split: sum.splits)
  next
    case rej
    then show ?thesis
      by (simp add: on_message_rejects [OF assms rej(2)] split: sum.splits)
  next
    case other
    with on_message_other [OF other, of S c] show ?thesis by auto
  qed
  then show "wsClients (on_message L now S c data) =
           (case authenticates L now data of
              None \<Rightarrow> wsClients S
            | Some w \<Rightarrow> Set_add (wsClients S) (allocated S, \<lparr>socket = c, workspaceId = w\<rparr>))"
    and "allocated (on_message L now S c data) =
           (case authenticates L now data of None \<Rightarrow> allocated S | Some w \<Rightarrow> Suc (allocated S))"
    and "client (on_message L now S c data) =
           (case authenticates L now data of
              None \<Rightarrow> client S
            | Some w \<Rightarrow> (client S)(c \<mapsto> allocated S))"
    by simp_all
qed

lemma on_message_sockets_other:
  assumes "c' \<noteq> c"
  shows "sockets (on_message L now S c data) c' = sockets S c'"
proof (cases "sockets S c")
  case None
  then show ?thesis by (simp add: on_message_def)
next
  case (Some ws)
  consider (auth) w where "authenticates L now data = Some w"
    | (rej) "authenticates L now data = None" "rejects L now data"
    | (other) "authenticates L now data = None" "\<not> rejects L now data"
    by (cases "authenticates L now data") auto
  then show ?thesis
  proof cases
    case auth
    with assms show ?thesis
      by (simp add: on_message_authenticates [OF Some auth] Let_def split: sum.splits)
  next
    case rej
    with assms show ?thesis
      by (simp add: on_message_rejects [OF Some rej(2)] split: sum.splits)
  next
    case other
    with on_message_other [OF other, of S c] show ?thesis by auto
  qed
qed

lemma ingest_fields [simp]:
  "wsClients (fst (ingest L S p)) = wsClients S"
  "allocated (fst (ingest L S p)) = allocated S"
  "client (fst (ingest L S p)) = client S"
  "console (fst (ingest L S p)) = console S"
  "responses (fst (ingest L S p)) = responses S"
  by (auto simp: ingest_def Let_def split: sum.splits prod.splits option.splits)

lemma step_registry:
  "set (wsClients (step L S ev)) \<subseteq> set (wsClients S) \<union>
     (case ev of
        Message c data now \<Rightarrow>
          (case sockets S c of
             None \<Rightarrow> {}
           | Some ws \<Rightarrow>
               if readyState ws = OPEN \<or> readyState ws = CLOSING then
                 (case authenticates L now data of
                    None \<Rightarrow> {}
                  | Some w \<Rightarrow> {(allocated S, \<lparr>socket = c, workspaceId = w\<rparr>)})
               else {})
      | _ \<Rightarrow> {})"
proof (cases ev)
  case (Connection c)
  then show ?thesis by (simp add: on_connection_def Let_def)
next
  case (Message c data now)
  then show ?thesis
    by (auto simp: on_message_registry Set_add_def split: option.splits if_splits)
next
  case (Close c)
  then show ?thesis
    by (auto simp: on_close_def Set_delete_def split: option.splits)
next
  case (SocketError c)
  then show ?thesis
    by (auto simp: on_error_def on_close_def Set_delete_def split: option.splits)
next
  case (TransportFailure c)
  then show ?thesis by (simp split: option.splits)
next
  case (Ingest p)
  then show ?thesis by (simp split: prod.splits) (metis fst_conv ingest_fields(1) subset_refl)
qed

lemma step_allocated: "allocated S \<le> allocated (step L S ev)"
proof (cases ev)
  case (Message c data now)
  then show ?thesis
    by (auto simp: on_message_registry split: option.splits)
next
  case (Ingest p)
  then show ?thesis by (simp split: prod.splits) (metis fst_conv ingest_fields(2) le_refl)
qed (auto simp: on_connection_def Let_def on_close_def on_error_def split: option.splits)

lemma step_allocated_auth:
  assumes "sockets S c = Some ws" "readyState ws = OPEN \<or> readyState ws = CLOSING"
    "authenticates L now data = Some w"
  shows "allocated (step L S (Message c data now)) = Suc (allocated S)"
  using assms by (auto simp: on_message_registry)

lemma step_registry_ok:
  assumes "registry_ok S"
  shows "registry_ok (step L S ev)"
  unfolding registry_ok_def
proof
  fix x assume x: "x \<in> set (wsClients (step L S ev))"
  from x step_registry [of L S ev] consider (old) "x \<in> set (wsClients S)"
    | (new) c data now ws w where "ev = Message c data now" "sockets S c = Some ws"
        "readyState ws = OPEN \<or> readyState ws = CLOSING" "authenticates L now data = Some w"
        "x = (allocated S, \<lparr>socket = c, workspaceId = w\<rparr>)"
    by (cases ev) (auto split: option.splits if_splits)
  then show "fst x < allocated (step L S ev)"
  proof cases
    case old
    with assms have "fst x < allocated S" by (simp add: registry_ok_def)
    with step_allocated [of S L ev] show ?thesis by simp
  next
    case new
    with step_allocated_auth [of S c ws L now data w] show ?thesis by simp
  qed
qed

lemma run_snoc: "run L (evs @ [ev]) = step L (run L evs) ev"
  by (simp add: run_def)

lemma run_append: "run L (xs @ ys) = foldl (step L) (run L xs) ys"
  by (simp add: run_def)

lemma run_registry_ok: "registry_ok (run L evs)"
proof (induction evs rule: rev_induct)
  case Nil
  show ?case by (simp add: run_def registry_ok_def initial_def)
next
  case (snoc ev evs)
  then show ?case by (simp add: run_snoc step_registry_ok)
qed

section \<open>Ingest: lemmas\<close>

lemma ingest_complete:
  "ingest L S (Inr tlog) =
     (S\<lparr>sockets := fan_out (wsClients S) (log_workspaceId tlog)
                      (JSON_stringify L (new_log_value tlog)) (sockets S)\<rparr>,
      Created (log_value tlog))"
  by (simp add: ingest_def Let_def forEach_send_complete)

lemma ingest_sockets:
  "sockets (fst (ingest L S (Inr tlog))) =
     snd (forEach_send (wsClients S) tlog (JSON_stringify L (new_log_value tlog)) (sockets S))"
  by (simp add: ingest_def Let_def split: prod.splits option.splits)

lemma ingest_frames:
  assumes "sockets S c = Some ws"
  shows "\<exists>k \<le> deliveries (wsClients S) (log_workspaceId tlog) c.
           sockets (fst (ingest L S (Inr tlog))) c =
             Some (ws\<lparr>sent := sent ws @ replicate k (JSON_stringify L (new_log_value tlog))\<rparr>)"
  using forEach_send_frames [of "wsClients S" tlog c "JSON_stringify L (new_log_value tlog)" "sockets S"]
    assms
  by (simp add: ingest_sockets)

lemma deliveries_pos:
  assumes "x \<in> set xs" "workspaceId (snd x) = Str w"
  shows "0 < deliveries xs w (socket (snd x))"
  using assms by (auto simp: deliveries_def filter_empty_conv)

lemma deliveries_zero:
  assumes "\<forall>x\<in>set xs. socket (snd x) = c \<longrightarrow> workspaceId (snd x) \<noteq> Str w"
  shows "deliveries xs w c = 0"
  using assms by (auto simp: deliveries_def filter_empty_conv)

section \<open>Runs: lemmas\<close>

lemma accepts_iff:
  "accepts L S ev = Some (c, w) \<longleftrightarrow>
     (\<exists>data now ws. ev = Message c data now \<and> sockets S c = Some ws \<and>
        (readyState ws = OPEN \<or> readyState ws = CLOSING) \<and>
        authenticates L now data = Some w)"
  by (cases ev) (auto simp: accepts_def split: option.splits)

lemma accepts_truthy: "accepts L S ev = Some (c, w) \<Longrightarrow> truthy w"
  by (auto simp: accepts_iff authenticates_truthy)

lemma accepted_truthy: "(c, w) \<in> set (accepted L S evs) \<Longrightarrow> truthy w"
proof (induction evs arbitrary: S)
  case Nil
  then show ?case by simp
next
  case (Cons ev evs)
  show ?case
  proof (cases "accepts L S ev = Some (c, w)")
    case True
    then show ?thesis by (rule accepts_truthy)
  next
    case False
    with Cons.prems have "(c, w) \<in> set (accepted L (step L S ev) evs)"
      by (cases "accepts L S ev") auto
    then show ?thesis by (rule Cons.IH)
  qed
qed

lemma step_registry_accepts:
  assumes "x \<in> set (wsClients (step L S ev))"
  shows "x \<in> set (wsClients S) \<or> accepts L S ev = Some (socket (snd x), workspaceId (snd x))"
proof (cases ev)
  case (Message c data now)
  show ?thesis
  proof (cases "sockets S c")
    case None
    with Message assms show ?thesis by simp
  next
    case (Some ws)
    show ?thesis
    proof (cases "readyState ws = OPEN \<or> readyState ws = CLOSING")
      case False
      with Message Some assms show ?thesis by simp
    next
      case True
      with Message Some assms show ?thesis
        by (cases "authenticates L now data")
           (auto simp: on_message_registry accepts_def Set_add_def split: if_splits)
    qed
  qed
qed (use assms step_registry [of L S ev] in auto)

lemma registry_accepted:
  assumes "x \<in> set (wsClients (foldl (step L) S evs))"
  shows "x \<in> set (wsClients S) \<or> (socket (snd x), workspaceId (snd x)) \<in> set (accepted L S evs)"
  using assms
proof (induction evs arbitrary: S)
  case Nil
  then show ?case by simp
next
  case (Cons ev evs)
  from Cons.prems have "x \<in> set (wsClients (foldl (step L) (step L S ev) evs))"
    by simp
  from Cons.IH [OF this] show ?case
  proof
    assume "x \<in> set (wsClients (step L S ev))"
    from step_registry_accepts [OF this] show ?thesis
      by auto
  next
    assume "(socket (snd x), workspaceId (snd x)) \<in> set (accepted L (step L S ev) evs)"
    then show ?thesis by simp
  qed
qed

lemma step_no_entry:
  assumes "\<forall>x\<in>set (wsClients S). socket (snd x) \<noteq> c" and "silent L c ev"
  shows "\<forall>x\<in>set (wsClients (step L S ev)). socket (snd x) \<noteq> c"
proof
  fix x assume "x \<in> set (wsClients (step L S ev))"
  with step_registry [of L S ev] consider (old) "x \<in> set (wsClients S)"
    | (new) c' data now w where "ev = Message c' data now"
        "authenticates L now data = Some w" "socket (snd x) = c'"
    by (cases ev) (auto split: option.splits if_splits)
  then show "socket (snd x) \<noteq> c"
  proof cases
    case old
    with assms(1) show ?thesis by simp
  next
    case new
    with assms(2) authenticates_subscribe [of L now data w] show ?thesis
      by (auto simp: silent_def)
  qed
qed

lemma step_greeting_only:
  assumes "\<forall>x\<in>set (wsClients S). socket (snd x) \<noteq> c" and "silent L c ev"
    and "\<forall>ws. sockets S c = Some ws \<longrightarrow> sent ws = [JSON_stringify L connected_value]"
  shows "\<forall>ws. sockets (step L S ev) c = Some ws \<longrightarrow> sent ws = [JSON_stringify L connected_value]"
proof (cases ev)
  case (Connection c')
  with assms(3) show ?thesis
    by (auto simp: on_connection_def Let_def ws_send_def)
next
  case (Message c' data now)
  show ?thesis
  proof (cases "c' = c")
    case True
    with Message assms(2) have "\<not> subscribe_frame L data"
      by (simp add: silent_def)
    from on_message_other [OF not_subscribe_other [OF this], of now S c] assms(3) Message True
    show ?thesis by (auto split: option.splits)
  next
    case False
    with Message assms(3) show ?thesis
      by (auto simp: on_message_sockets_other split: option.splits)
  qed
next
  case (Close c')
  with assms(3) show ?thesis
    by (auto simp: on_close_def split: option.splits if_splits)
next
  case (SocketError c')
  with assms(3) show ?thesis
    by (auto simp: on_error_def on_close_def console_error_def split: option.splits if_splits)
next
  case (TransportFailure c')
  with assms(3) show ?thesis
    by (auto split: option.splits if_splits)
next
  case (Ingest p)
  show ?thesis
  proof (cases p)
    case (Inl e)
    with Ingest assms(3) show ?thesis by (simp add: ingest_def)
  next
    case (Inr tlog)
    have "sockets (step L S ev) c = sockets (fst (ingest L S (Inr tlog))) c"
      using Ingest Inr by (simp split: prod.splits)
    also have "\<dots> = sockets S c"
      by (simp add: ingest_sockets forEach_send_untouched [OF assms(1)])
    finally show ?thesis using assms(3) by simp
  qed
qed

section \<open>The sample runs\<close>

lemma sample_parse_subscribe:
  "p \<in> set sample_payloads \<Longrightarrow>
   sample_parse (sample_stringify (subscribe_value (sample_token p))) =
     Some (subscribe_value (sample_token p))"
  by (intro sample_parse_document) (auto simp: sample_documents_def)

lemma subscribe_value_props:
  "get_prop (subscribe_value t) ''type'' = Inr (Str ''subscribe'')"
  "get_prop (subscribe_value t) ''token'' = Inr (Str t)"
  by (simp_all add: subscribe_value_def)

lemma token_payload_props:
  "get_prop (token_payload w e) ''exp'' = Inr (Num (Fin (real_of_int e)))"
  "get_prop (token_payload w e) ''workspaceId'' = Inr (Str w)"
  by (simp_all add: token_payload_def)

lemma sample_sel:
  "SESSION_SECRET sample = Some ''test-secret''"
  "JSON_parse sample = sample_parse"
  "JSON_stringify sample = sample_stringify"
  "to_base64 sample = sample_to_base64"
  "from_base64 sample = sample_from_base64"
  "hmac_sha256_hex sample = sample_hmac"
  by (simp_all add: sample_def)

lemma sample_token_nonempty: "sample_token p \<noteq> []"
  by (simp add: sample_token_def sample_to_base64_def)

lemma sample_frame:
  assumes "w = ''W1'' \<or> w = ''W2''"
  shows "sample_parse (sample_subscribe w) =
           Some (subscribe_value (sample_token (token_payload w 86401000)))"
proof -
  from assms have "token_payload w 86401000 \<in> set sample_payloads"
    by (auto simp: sample_payloads_def)
  then show ?thesis
    by (simp add: sample_subscribe_def sample_parse_subscribe)
qed

lemma sample_validate:
  assumes "w = ''W1'' \<or> w = ''W2''" "now \<le> 86401000"
  shows "validateSocketToken sample now (Str (sample_token (token_payload w 86401000))) =
           Inr (Validation True (Str w))"
proof -
  from assms(1) have "token_payload w 86401000 \<in> set sample_payloads"
    by (auto simp: sample_payloads_def)
  then show ?thesis
    using assms(2) by (simp add: sample_token_accepted token_payload_props js_less_def)
qed

lemma sample_authenticates:
  assumes "w = ''W1'' \<or> w = ''W2''" "now \<le> 86401000"
  shows "authenticates sample now (sample_subscribe w) = Some (Str w)"
  using assms
  by (auto simp: authenticates_def sample_sel sample_frame sample_validate subscribe_value_props
      sample_token_nonempty)

lemmas sample_run =
  run_def initial_def on_connection_def on_message_def message_try_def on_close_def on_error_def
  console_error_def ws_send_def ws_close_def Set_add_def Set_delete_def Let_def
  sample_sel sample_frame sample_validate subscribe_value_props sample_token_nonempty

lemma sample_session_state: "run sample sample_session = sample_state"
  by (simp add: sample_session_def sample_state_def sample_socket_def sample_run
      numeral_2_eq_2)





lemma sample_junk: "\<not> subscribe_frame sample ''junk''"
  by (simp add: subscribe_frame_def sample_sel sample_parse_junk)

lemma sample_new_log_parse:
  "JSON_parse sample (JSON_stringify sample (new_log_value sample_log)) =
     Some (new_log_value sample_log)"
  by (simp add: sample_sel, rule sample_parse_document, simp add: sample_documents_def)

lemma sample_frames_differ:
  "sample_stringify (new_log_value sample_log) \<noteq> sample_stringify connected_value"
proof
  assume eq: "sample_stringify (new_log_value sample_log) = sample_stringify connected_value"
  have "sample_parse (sample_stringify (new_log_value sample_log)) =
          Some (new_log_value sample_log)"
    by (rule sample_parse_document) (simp add: sample_documents_def)
  moreover have "sample_parse (sample_stringify connected_value) = Some connected_value"
    by (rule sample_parse_document) (simp add: sample_documents_def)
  ultimately have "new_log_value sample_log = connected_value"
    using eq by simp
  then show False
    by (simp add: new_log_value_def connected_value_def)
qed


lemma bystander_silent: "\<forall>ev\<in>set bystander_session. silent sample 3 ev"
  by (simp add: bystander_session_def sample_session_def silent_def sample_junk)

section \<open>Token codec: properties\<close>

text \<open>
  C2, as the code has it.  A token issued for tenant \<open>w\<close> at time \<open>issued\<close> expires at
  \<open>issued + TOKEN_EXPIRY\<close>.  Validated at a time up to and including that instant it is
  accepted and yields \<open>w\<close>; validated at any later time it is refused.  The check is
  \<open>payload.exp < Date.now()\<close>, so the instant of expiry itself still validates.
\<close>

theorem token_valid_until_expiry:
  assumes "round_trips L issued w"
  shows "(now \<le> issued + TOKEN_EXPIRY \<longrightarrow>
            validateSocketToken L now (Str (generateSocketToken L issued w)) =
              Inr (Validation True (Str w))) \<and>
         (issued + TOKEN_EXPIRY < now \<longrightarrow>
            validateSocketToken L now (Str (generateSocketToken L issued w)) = Inr invalid)"
  by (simp add: validate_generated [OF assms])

text \<open>On the sample library: one millisecond before expiry and one millisecond after.\<close>

theorem token_valid_until_expiry_witness:
  "round_trips sample 1000 ''W1'' \<and>
   validateSocketToken sample 86400999 (Str (generateSocketToken sample 1000 ''W1'')) =
     Inr (Validation True (Str ''W1'')) \<and>
   validateSocketToken sample 86401001 (Str (generateSocketToken sample 1000 ''W1'')) =
     Inr invalid"
  using token_valid_until_expiry [OF sample_round_trips, of 86400999]
    token_valid_until_expiry [OF sample_round_trips, of 86401001]
  by (simp add: TOKEN_EXPIRY_def sample_round_trips)

text \<open>
  C2 as stated asks for a refusal at the instant of expiry.  The token issued at 1000 for
  \<open>W1\<close> expires at \<open>1000 + TOKEN_EXPIRY\<close>, and validation at exactly that time accepts it.
\<close>

theorem token_valid_at_expiry_counterexample:
  "round_trips sample 1000 ''W1'' \<and>
   validateSocketToken sample (1000 + TOKEN_EXPIRY)
       (Str (generateSocketToken sample 1000 ''W1'')) =
     Inr (Validation True (Str ''W1''))"
  by (simp add: validate_generated [OF sample_round_trips] sample_round_trips)

text \<open>
  C3, as the code has it.  \<open>validateSocketToken\<close> returns a result for every argument and
  never throws, and the result is \<open>{ valid: false }\<close> whenever the token is malformed:
  base64 decoding throws, the decoded text or the signed data is not JSON, the envelope
  lacks a string \<open>data\<close> or \<open>signature\<close>, or the signed data is the JSON text \<open>null\<close>.
\<close>

theorem validate_never_throws:
  "(\<exists>v. validateSocketToken L now token = Inr v) \<and>
   (malformed L token \<longrightarrow> validateSocketToken L now token = Inr invalid)"
  by (simp add: validate_returns validate_malformed)

text \<open>On the sample library: the token \<open>bogus\<close> decodes to a text that is not JSON.\<close>

theorem validate_never_throws_witness:
  "malformed sample (Str ''bogus'') \<and>
   validateSocketToken sample 2000 (Str ''bogus'') = Inr invalid"
proof -
  have m: "malformed sample (Str ''bogus'')"
    by (simp add: malformed_def sample_def sample_from_base64_bogus sample_parse_empty)
  with validate_never_throws [of sample 2000 "Str ''bogus''"] show ?thesis
    by simp
qed

text \<open>
  C3 as stated also asks for \<open>invalid\<close> when the decoded payload lacks the expiry.  A
  correctly signed payload \<open>{ workspaceId: "W1" }\<close> without \<open>exp\<close> is accepted, at any time:
  \<open>undefined < Date.now()\<close> is false.
\<close>

theorem validate_missing_exp_counterexample:
  "get_prop (Obj [(''workspaceId'', Str ''W1'')]) ''exp'' = Inr Undefined \<and>
   validateSocketToken sample 99999999999
       (Str (sample_token (Obj [(''workspaceId'', Str ''W1'')]))) =
     Inr (Validation True (Str ''W1''))"
  by (simp add: sample_token_accepted sample_payloads_def js_less_def)

section \<open>Broadcast: properties\<close>

text \<open>
  C1.  Tenant isolation of the broadcast.  Let a record of tenant \<open>T1\<close> be persisted and
  fanned out in state \<open>S\<close>.  Every registry entry scoped to \<open>T1\<close> whose socket is open is
  sent the \<open>new_log\<close> frame: its connection receives one copy per entry it holds for
  \<open>T1\<close>.  An entry scoped to another tenant \<open>T2\<close> is never sent anything: a connection
  none of whose entries is scoped to \<open>T1\<close> is left exactly as it was.
\<close>

theorem tenant_isolation:
  "(\<forall>x\<in>set (wsClients S). \<forall>ws.
       workspaceId (snd x) = Str (log_workspaceId tlog) \<and>
       sockets S (socket (snd x)) = Some ws \<and> readyState ws = OPEN \<longrightarrow>
         0 < deliveries (wsClients S) (log_workspaceId tlog) (socket (snd x)) \<and>
         sockets (fst (ingest L S (Inr tlog))) (socket (snd x)) =
           Some (ws\<lparr>sent := sent ws @
             replicate (deliveries (wsClients S) (log_workspaceId tlog) (socket (snd x)))
               (JSON_stringify L (new_log_value tlog))\<rparr>)) \<and>
   (\<forall>c. (\<forall>x\<in>set (wsClients S).
            socket (snd x) = c \<longrightarrow> workspaceId (snd x) \<noteq> Str (log_workspaceId tlog)) \<longrightarrow>
        sockets (fst (ingest L S (Inr tlog))) c = sockets S c)"
proof (intro conjI ballI allI impI)
  fix x ws
  assume x: "x \<in> set (wsClients S)"
    and "workspaceId (snd x) = Str (log_workspaceId tlog) \<and>
         sockets S (socket (snd x)) = Some ws \<and> readyState ws = OPEN"
  then have w: "workspaceId (snd x) = Str (log_workspaceId tlog)"
    and ws: "sockets S (socket (snd x)) = Some ws" "readyState ws = OPEN"
    by auto
  from x w show "0 < deliveries (wsClients S) (log_workspaceId tlog) (socket (snd x))"
    by (rule deliveries_pos)
  from ws show "sockets (fst (ingest L S (Inr tlog))) (socket (snd x)) =
      Some (ws\<lparr>sent := sent ws @
        replicate (deliveries (wsClients S) (log_workspaceId tlog) (socket (snd x)))
          (JSON_stringify L (new_log_value tlog))\<rparr>)"
    by (simp add: ingest_complete fan_out_def)
next
  fix c
  assume "\<forall>x\<in>set (wsClients S).
            socket (snd x) = c \<longrightarrow> workspaceId (snd x) \<noteq> Str (log_workspaceId tlog)"
  then have "deliveries (wsClients S) (log_workspaceId tlog) c = 0"
    by (rule deliveries_zero)
  then show "sockets (fst (ingest L S (Inr tlog))) c = sockets S c"
    by (simp add: ingest_complete fan_out_def split: option.splits)
qed

text \<open>
  The scenario of the specification: connections 0 and 1 are registered for \<open>W1\<close>,
  connection 2 for \<open>W2\<close>; a record of \<open>W1\<close> reaches 0 and 1 and not 2.
\<close>

theorem tenant_isolation_witness:
  "wsClients (run sample sample_session) =
     [(0, \<lparr>socket = 0, workspaceId = Str ''W1''\<rparr>),
      (1, \<lparr>socket = 1, workspaceId = Str ''W1''\<rparr>),
      (2, \<lparr>socket = 2, workspaceId = Str ''W2''\<rparr>)] \<and>
   sockets (fst (ingest sample (run sample sample_session) (Inr sample_log))) 0 =
     Some (sample_socket [sample_stringify connected_value,
                          sample_stringify (subscribed_value (Str ''W1'')),
                          sample_stringify (new_log_value sample_log)]) \<and>
   sockets (fst (ingest sample (run sample sample_session) (Inr sample_log))) 1 =
     Some (sample_socket [sample_stringify connected_value,
                          sample_stringify (subscribed_value (Str ''W1'')),
                          sample_stringify (new_log_value sample_log)]) \<and>
   sockets (fst (ingest sample (run sample sample_session) (Inr sample_log))) 2 =
     Some (sample_socket [sample_stringify connected_value,
                          sample_stringify (subscribed_value (Str ''W2''))])"
  using tenant_isolation [of "run sample sample_session" sample_log sample]
  by (simp add: sample_session_state sample_state_def sample_log_def sample_socket_def
      deliveries_def sample_sel)



text \<open>
  C8.  Payload fidelity.  The message \<open>{ type: "new_log", data: log }\<close> is serialised
  once, before the loop.  Whatever a connection receives from the fan-out is a number of
  copies of that one text (one per entry it holds for the tenant when its socket is open),
  so no connection sees a payload of its own; and a client whose parser reads the text
  back finds in \<open>data\<close> the record that persistence returned.
\<close>

theorem payload_fidelity:
  assumes "JSON_parse L (JSON_stringify L (new_log_value tlog)) = Some (new_log_value tlog)"
    and "sockets S c = Some ws"
  shows "\<exists>k \<le> deliveries (wsClients S) (log_workspaceId tlog) c.
           sockets (fst (ingest L S (Inr tlog))) c =
             Some (ws\<lparr>sent := sent ws @ replicate k (JSON_stringify L (new_log_value tlog))\<rparr>) \<and>
           (readyState ws = OPEN \<longrightarrow>
              k = deliveries (wsClients S) (log_workspaceId tlog) c) \<and>
           (\<exists>message.
              JSON_parse L (JSON_stringify L (new_log_value tlog)) = Some message \<and>
              get_prop message ''type'' = Inr (Str ''new_log'') \<and>
              get_prop message ''data'' = Inr (log_value tlog))"
proof -
  have msg: "\<exists>message.
              JSON_parse L (JSON_stringify L (new_log_value tlog)) = Some message \<and>
              get_prop message ''type'' = Inr (Str ''new_log'') \<and>
              get_prop message ''data'' = Inr (log_value tlog)"
    using assms(1) by (simp add: new_log_value_def)
  show ?thesis
  proof (cases "readyState ws = OPEN")
    case True
    then have "sockets (fst (ingest L S (Inr tlog))) c =
        Some (ws\<lparr>sent := sent ws @ replicate (deliveries (wsClients S) (log_workspaceId tlog) c)
          (JSON_stringify L (new_log_value tlog))\<rparr>)"
      using assms(2) by (simp add: ingest_complete fan_out_def)
    with msg show ?thesis by blast
  next
    case False
    with ingest_frames [OF assms(2), of tlog L] msg show ?thesis by blast
  qed
qed

text \<open>On the sample session connection 0 receives exactly the serialised message.\<close>

theorem payload_fidelity_witness:
  "JSON_parse sample (JSON_stringify sample (new_log_value sample_log)) =
     Some (new_log_value sample_log) \<and>
   sockets (fst (ingest sample (run sample sample_session) (Inr sample_log))) 0 =
     Some (sample_socket [sample_stringify connected_value,
                          sample_stringify (subscribed_value (Str ''W1'')),
                          sample_stringify (new_log_value sample_log)]) \<and>
   get_prop (new_log_value sample_log) ''data'' = Inr (log_value sample_log)"
proof -
  have s: "sockets (run sample sample_session) 0 =
      Some (sample_socket [sample_stringify connected_value,
                           sample_stringify (subscribed_value (Str ''W1''))])"
    by (simp add: sample_session_state sample_state_def)
  have d: "deliveries (wsClients (run sample sample_session)) (log_workspaceId sample_log) 0 = 1"
    by (simp add: sample_session_state sample_state_def deliveries_def sample_log_def)
  from payload_fidelity [OF sample_new_log_parse s] sample_new_log_parse d
  show ?thesis
    by (auto simp: sample_socket_def sample_sel sample_log_def)
qed

section \<open>Gateway: properties\<close>




text \<open>
  C5.  Registry membership.  In every state the gateway can reach, every registry entry
  records a handshake that was completed: a frame received on the entry's socket that
  authenticated for the entry's tenant, that is, a subscribe message whose token
  \<open>validateSocketToken\<close> accepted at that time.  The tenant is truthy, so no entry is
  tenant-less, and a connection without a completed handshake has no entry.
\<close>

theorem registry_membership:
  "\<forall>x\<in>set (wsClients (run L evs)).
     (socket (snd x), workspaceId (snd x)) \<in> set (accepted L initial evs) \<and>
     truthy (workspaceId (snd x))"
proof
  fix x assume "x \<in> set (wsClients (run L evs))"
  then have "x \<in> set (wsClients (foldl (step L) initial evs))"
    by (simp add: run_def)
  from registry_accepted [OF this]
  have a: "(socket (snd x), workspaceId (snd x)) \<in> set (accepted L initial evs)"
    by (simp add: initial_def)
  with accepted_truthy [OF a]
  show "(socket (snd x), workspaceId (snd x)) \<in> set (accepted L initial evs) \<and>
        truthy (workspaceId (snd x))"
    by simp
qed

text \<open>On the sample session: the entry of connection 0.\<close>

theorem registry_membership_witness:
  "(0, \<lparr>socket = 0, workspaceId = Str ''W1''\<rparr>) \<in> set (wsClients (run sample sample_session)) \<and>
   (0, Str ''W1'') \<in> set (accepted sample initial sample_session) \<and>
   truthy (Str ''W1'')"
proof -
  have m: "(0, \<lparr>socket = 0, workspaceId = Str ''W1''\<rparr>) \<in> set (wsClients (run sample sample_session))"
    by (simp add: sample_session_state sample_state_def)
  from registry_membership [of sample sample_session, THEN bspec, OF m] m show ?thesis
    by simp
qed

text \<open>
  C7.  A connection that never sends a subscribe message has no registry entry, and the
  only frame it is ever sent is the greeting: no \<open>new_log\<close> frame reaches it, however
  many records are ingested.
\<close>

theorem never_subscribed:
  assumes "\<forall>ev\<in>set evs. silent L c ev"
  shows "(\<forall>x\<in>set (wsClients (run L evs)). socket (snd x) \<noteq> c) \<and>
         (\<forall>ws. sockets (run L evs) c = Some ws \<longrightarrow>
            sent ws = [JSON_stringify L connected_value] \<and>
            (\<forall>tlog. JSON_stringify L (new_log_value tlog) \<noteq> JSON_stringify L connected_value \<longrightarrow>
               JSON_stringify L (new_log_value tlog) \<notin> set (sent ws)))"
proof -
  have "(\<forall>x\<in>set (wsClients (run L evs)). socket (snd x) \<noteq> c) \<and>
        (\<forall>ws. sockets (run L evs) c = Some ws \<longrightarrow> sent ws = [JSON_stringify L connected_value])"
    using assms
  proof (induction evs rule: rev_induct)
    case Nil
    show ?case by (simp add: run_def initial_def)
  next
    case (snoc ev evs)
    then have ih: "\<forall>x\<in>set (wsClients (run L evs)). socket (snd x) \<noteq> c"
      "\<forall>ws. sockets (run L evs) c = Some ws \<longrightarrow> sent ws = [JSON_stringify L connected_value]"
      and ev: "silent L c ev"
      by auto
    from step_no_entry [OF ih(1) ev] step_greeting_only [OF ih(1) ev ih(2)]
    show ?case by (simp only: run_snoc)
  qed
  then show ?thesis by auto
qed

text \<open>
  In \<open>bystander_session\<close> connection 3 sends only a frame that is not JSON.  The record
  of \<open>W1\<close> reaches connection 0 and connection 3 still holds the greeting alone.
\<close>

theorem never_subscribed_witness:
  "list_all (silent sample 3) bystander_session \<and>
   sockets (run sample bystander_session) 3 =
     Some (sample_socket [sample_stringify connected_value]) \<and>
   sockets (run sample bystander_session) 0 =
     Some (sample_socket [sample_stringify connected_value,
                          sample_stringify (subscribed_value (Str ''W1'')),
                          sample_stringify (new_log_value sample_log)]) \<and>
   sample_stringify (new_log_value sample_log) \<notin> set [sample_stringify connected_value]"
proof -
  have s: "sockets (run sample bystander_session) 3 =
             Some (sample_socket [sample_stringify connected_value])"
    "sockets (run sample bystander_session) 0 =
     Some (sample_socket [sample_stringify connected_value,
                          sample_stringify (subscribed_value (Str ''W1'')),
                          sample_stringify (new_log_value sample_log)])"
    by (simp_all add: bystander_session_def run_append sample_session_state)
       (simp_all add: sample_state_def sample_socket_def on_connection_def on_message_def
          message_try_def ws_send_def Let_def sample_sel sample_parse_junk ingest_def
          sample_log_def console_error_def)
  from never_subscribed [OF bystander_silent] s bystander_silent sample_frames_differ
  show ?thesis
    by (auto simp: sample_sel sample_socket_def list_all_iff)
qed

text \<open>
  C9.  Permissive handling before authentication.  A frame that is not JSON, or is JSON
  whose \<open>type\<close> is not \<open>"subscribe"\<close>, changes nothing but the error log: no frame is
  sent, the socket is not closed, the registry is as before.  A subscribe message that
  authenticates afterwards is handled as if the ignored frame had never arrived: the
  connection is registered for its tenant and sent the \<open>subscribed\<close> confirmation.
\<close>

theorem ignored_frames:
  assumes "sockets (run L evs) c = Some ws" and "readyState ws = OPEN"
    and "\<not> subscribe_frame L data"
  shows "(step L (run L evs) (Message c data now) = run L evs \<or>
          step L (run L evs) (Message c data now) =
            console_error ''WebSocket message error:'' (run L evs)) \<and>
         (authenticates L now' data' = Some w \<longrightarrow>
            wsClients (step L (step L (run L evs) (Message c data now)) (Message c data' now')) =
              wsClients (run L evs) @
                [(allocated (run L evs), \<lparr>socket = c, workspaceId = w\<rparr>)] \<and>
            sockets (step L (step L (run L evs) (Message c data now)) (Message c data' now')) c =
              Some (ws\<lparr>sent := sent ws @ [JSON_stringify L (subscribed_value w)]\<rparr>))"
proof -
  define S where "S = run L evs"
  define S1 where "S1 = step L S (Message c data now)"
  have sock: "sockets S c = Some ws"
    using assms(1) by (simp add: S_def)
  have ign: "S1 = S \<or> S1 = console_error ''WebSocket message error:'' S"
    using sock assms(2) on_message_other [OF not_subscribe_other [OF assms(3)], of now S c]
    by (simp add: S1_def)
  have fresh: "allocated S \<notin> fst ` set (wsClients S)"
    using run_registry_ok [of L evs] by (auto simp: registry_ok_def S_def)
  have auth: "wsClients (step L S1 (Message c data' now')) =
              wsClients S @ [(allocated S, \<lparr>socket = c, workspaceId = w\<rparr>)] \<and>
            sockets (step L S1 (Message c data' now')) c =
              Some (ws\<lparr>sent := sent ws @ [JSON_stringify L (subscribed_value w)]\<rparr>)"
    if a: "authenticates L now' data' = Some w"
  proof -
    from ign sock have s1: "sockets S1 c = Some ws" "wsClients S1 = wsClients S"
      "allocated S1 = allocated S"
      by auto
    have "step L S1 (Message c data' now') = on_message L now' S1 c data'"
      using s1 assms(2) by simp
    with fresh show ?thesis
      by (simp add: on_message_authenticates [OF s1(1) a] s1 Let_def
          ws_send_open [OF assms(2)] Set_add_def)
  qed
  from ign auth show ?thesis
    unfolding S1_def S_def by blast
qed

text \<open>
  On the sample library: a fresh connection sends \<open>junk\<close>, then subscribes for \<open>W1\<close>.
\<close>

theorem ignored_frames_witness:
  "sockets (run sample [Connection 0]) 0 = Some (sample_socket [sample_stringify connected_value]) \<and>
   \<not> subscribe_frame sample ''junk'' \<and>
   authenticates sample 2000 (sample_subscribe ''W1'') = Some (Str ''W1'') \<and>
   wsClients (step sample (step sample (run sample [Connection 0]) (Message 0 ''junk'' 1500))
       (Message 0 (sample_subscribe ''W1'') 2000)) =
     [(0, \<lparr>socket = 0, workspaceId = Str ''W1''\<rparr>)] \<and>
   sockets (step sample (step sample (run sample [Connection 0]) (Message 0 ''junk'' 1500))
       (Message 0 (sample_subscribe ''W1'') 2000)) 0 =
     Some (sample_socket [sample_stringify connected_value,
                          sample_stringify (subscribed_value (Str ''W1''))])"
proof -
  have s: "sockets (run sample [Connection 0]) 0 =
             Some (sample_socket [sample_stringify connected_value])"
    by (simp add: sample_run sample_socket_def)
  have a: "authenticates sample 2000 (sample_subscribe ''W1'') = Some (Str ''W1'')"
    by (simp add: sample_authenticates)
  have r: "wsClients (run sample [Connection 0]) = []" "allocated (run sample [Connection 0]) = 0"
    by (simp_all add: sample_run)
  from ignored_frames [OF s _ sample_junk,
      where now' = 2000 and data' = "sample_subscribe ''W1''" and w = "Str ''W1''" and now = 1500]
    s a r sample_junk
  show ?thesis
    by (simp add: sample_socket_def sample_sel)
qed

text \<open>
  C10.  A second subscribe.  Let connection \<open>c\<close> be authenticated in a reachable state:
  its \<open>client\<close> variable refers to a registry entry.  A further subscribe message that
  authenticates is handled like the first: a new entry is appended, the earlier entry
  stays, and \<open>client\<close> now refers to the new entry.  When the socket then closes or
  reports an error, only that newest entry is deleted: the registry is back to what it
  was before the second subscribe, with the earlier entry still in it.
\<close>

theorem resubscribe:
  assumes "sockets (run L evs) c = Some ws" and "readyState ws = OPEN"
    and "client (run L evs) c = Some r" and "(r, old) \<in> set (wsClients (run L evs))"
    and "authenticates L now data = Some w"
  shows "wsClients (step L (run L evs) (Message c data now)) =
           wsClients (run L evs) @ [(allocated (run L evs), \<lparr>socket = c, workspaceId = w\<rparr>)] \<and>
         wsClients (step L (step L (run L evs) (Message c data now)) (Close c)) =
           wsClients (run L evs) \<and>
         wsClients (step L (step L (run L evs) (Message c data now)) (SocketError c)) =
           wsClients (run L evs) \<and>
         (r, old) \<in> set (wsClients (step L (step L (run L evs) (Message c data now)) (Close c)))"
proof -
  define S where "S = run L evs"
  define S1 where "S1 = step L S (Message c data now)"
  have ok: "\<forall>x\<in>set (wsClients S). fst x \<noteq> allocated S"
    using run_registry_ok [of L evs] by (auto simp: registry_ok_def S_def)
  then have fresh: "allocated S \<notin> fst ` set (wsClients S)"
    by auto
  have sock: "sockets S c = Some ws"
    using assms(1) by (simp add: S_def)
  have S1: "S1 = on_message L now S c data"
    using sock assms(2) by (simp add: S1_def)
  have reg: "wsClients S1 = wsClients S @ [(allocated S, \<lparr>socket = c, workspaceId = w\<rparr>)]"
    and cl: "client S1 c = Some (allocated S)"
    using fresh by (simp_all add: S1 on_message_registry [OF sock] assms(5) Set_add_def)
  have "\<exists>ws'. sockets S1 c = Some ws' \<and> readyState ws' = OPEN"
    using sock assms(2)
    by (auto simp: S1 on_message_authenticates [OF sock assms(5)] Let_def ws_send_def
        split: option.splits)
  then obtain ws' where ws': "sockets S1 c = Some ws'" "readyState ws' = OPEN"
    by blast
  have del: "Set_delete (wsClients S1) (allocated S) = wsClients S"
    using ok by (simp add: reg Set_delete_def filter_id_conv)
  have close: "wsClients (step L S1 (Close c)) = wsClients S"
    using ws' cl del by (simp add: on_close_def)
  have err: "wsClients (step L S1 (SocketError c)) = wsClients S"
    using ws' cl del by (simp add: on_error_def on_close_def console_error_def)
  from reg close err assms(4) show ?thesis
    unfolding S1_def S_def by simp
qed

text \<open>
  In \<open>resubscribe_session\<close> connection 0 is registered for \<open>W1\<close>.  It subscribes again with
  a token for \<open>W2\<close> and then closes: the entry for \<open>W1\<close> is left behind.
\<close>

theorem resubscribe_witness:
  "sockets (run sample resubscribe_session) 0 =
     Some (sample_socket [sample_stringify connected_value,
                          sample_stringify (subscribed_value (Str ''W1''))]) \<and>
   client (run sample resubscribe_session) 0 = Some 0 \<and>
   wsClients (run sample resubscribe_session) = [(0, \<lparr>socket = 0, workspaceId = Str ''W1''\<rparr>)] \<and>
   authenticates sample 3000 (sample_subscribe ''W2'') = Some (Str ''W2'') \<and>
   wsClients (step sample (run sample resubscribe_session)
       (Message 0 (sample_subscribe ''W2'') 3000)) =
     [(0, \<lparr>socket = 0, workspaceId = Str ''W1''\<rparr>), (1, \<lparr>socket = 0, workspaceId = Str ''W2''\<rparr>)] \<and>
   wsClients (step sample
       (step sample (run sample resubscribe_session) (Message 0 (sample_subscribe ''W2'') 3000))
       (Close 0)) =
     [(0, \<lparr>socket = 0, workspaceId = Str ''W1''\<rparr>)]"
proof -
  have s: "sockets (run sample resubscribe_session) 0 =
     Some (sample_socket [sample_stringify connected_value,
                          sample_stringify (subscribed_value (Str ''W1''))])"
    and c: "client (run sample resubscribe_session) 0 = Some 0"
    and r: "wsClients (run sample resubscribe_session) =
              [(0, \<lparr>socket = 0, workspaceId = Str ''W1''\<rparr>)]"
    and n: "allocated (run sample resubscribe_session) = 1"
    by (simp_all add: resubscribe_session_def sample_run sample_socket_def)
  have a: "authenticates sample 3000 (sample_subscribe ''W2'') = Some (Str ''W2'')"
    by (simp add: sample_authenticates)
  have m: "(0, \<lparr>socket = 0, workspaceId = Str ''W1''\<rparr>) \<in>
             set (wsClients (run sample resubscribe_session))"
    by (simp add: r)
  from resubscribe [OF s _ c m a] s c r n a show ?thesis
    by (simp add: sample_socket_def)
qed

end
